theory Spec2Isabelle
  imports Main "HOL-Library.Word" "HOL-Library.AList"
begin

section \<open>JavaScript strings\<close>

text \<open>
  A JavaScript string is a sequence of 16-bit code units, so a string is a list of
  \<^typ>\<open>16 word\<close>. \<open>js\<close> embeds an ASCII literal of the source.
\<close>

type_synonym jschar = "16 word"
type_synonym jsstring = "jschar list"

definition js :: "string \<Rightarrow> jsstring" where
  "js s = map of_char s"

text \<open>
  The code units that \<^verbatim>\<open>String.prototype.trim\<close> strips and that the regular
  expression class \<^verbatim>\<open>\s\<close> matches: ECMAScript's WhiteSpace and LineTerminator
  (TAB, LF, VT, FF, CR, SP, NBSP, U+1680, U+2000..U+200A, U+2028, U+2029, U+202F,
  U+205F, U+3000, U+FEFF).
\<close>

definition isWhiteSpace :: "jschar \<Rightarrow> bool" where
  "isWhiteSpace c =
     (c \<in> {0x0009, 0x000A, 0x000B, 0x000C, 0x000D, 0x0020, 0x00A0, 0x1680,
            0x2028, 0x2029, 0x202F, 0x205F, 0x3000, 0xFEFF}
      \<or> (0x2000 \<le> c \<and> c \<le> 0x200A))"

definition trim :: "jsstring \<Rightarrow> jsstring" where
  "trim s = rev (dropWhile isWhiteSpace (rev (dropWhile isWhiteSpace s)))"

definition startsWith :: "jsstring \<Rightarrow> jsstring \<Rightarrow> bool" where
  "startsWith s q = (take (length q) s = q)"

text \<open>
  \<^verbatim>\<open>x || d\<close> for an \<open>x\<close> that is a string or \<^verbatim>\<open>undefined\<close> (\<open>None\<close>):
  \<^verbatim>\<open>undefined\<close> and the empty string are falsy, every other string is truthy.
\<close>

definition or_default :: "jsstring option \<Rightarrow> jsstring \<Rightarrow> jsstring" where
  "or_default x d = (case x of None \<Rightarrow> d | Some s \<Rightarrow> if s = [] then d else s)"

section \<open>The path router\<close>

text \<open>
  \<^verbatim>\<open>
  const parsePathFrom = (path) => {
    const p = (path || "/").trim();
    return p.startsWith("/") ? p : "/" + p;
  };
  \<close>
\<close>

definition parsePathFrom :: "jsstring option \<Rightarrow> jsstring" where
  "parsePathFrom path =
     (let p = trim (or_default path (js ''/''))
      in if startsWith p (js ''/'') then p else js ''/'' @ p)"

text \<open>
  The browser state the router reads and writes, and the two React state cells of
  \<^verbatim>\<open>RouterProvider\<close>. \<open>route\<close> and \<open>loading\<close> hold the value last given to
  \<^verbatim>\<open>setRoute\<close> and \<^verbatim>\<open>setLoading\<close>, which is the value of the next render;
  rendering itself is not modelled, so the record does not tell what a closure of the
  previous render (the getter of \<^verbatim>\<open>window.__router\<close>, say) still reads before that
  render. Pending timer callbacks are the \<^verbatim>\<open>() => setLoading(false)\<close> closures of
  \<^verbatim>\<open>navigate\<close>, kept by due time (ms).
\<close>

record location =
  pathname :: jsstring
  search :: jsstring
  hash :: jsstring

record router =
  location :: location
  pushed :: "jsstring list"
  popstates :: nat
  route :: jsstring
  loading :: bool
  now :: nat
  timers :: "nat list"

text \<open>
  \<^verbatim>\<open>window.history.pushState({}, "", url)\<close> adds one session-history entry for
  \<open>url\<close>, makes it the current location and dispatches no \<^verbatim>\<open>popstate\<close> event.
  \<open>pushed\<close> lists the URLs of the entries added so far, oldest first. The location
  is \<open>url\<close> split at the first \<^verbatim>\<open>#\<close> and the first \<^verbatim>\<open>?\<close> before it (a bare
  \<^verbatim>\<open>?\<close> or \<^verbatim>\<open>#\<close> reads back as the empty string).

  This describes the call for a URL that the browser accepts and stores as written, a
  same-origin path such as \<^verbatim>\<open>/about\<close> or \<^verbatim>\<open>/media\<close>. It does not describe the
  other URLs: the browser's URL parser percent-encodes (\<^verbatim>\<open>/a b\<close> is stored as
  \<^verbatim>\<open>/a%20b\<close>) and removes dot segments, and for a URL that resolves to another
  origin (\<^verbatim>\<open>//x\<close>) or does not parse, \<^verbatim>\<open>pushState\<close> throws a SecurityError,
  which \<^verbatim>\<open>navigate\<close> does not catch. The theorems below use \<open>pushState\<close> and
  \<open>url_location\<close> at \<^verbatim>\<open>/about\<close> and \<^verbatim>\<open>/media\<close> only.
\<close>

definition url_location :: "jsstring \<Rightarrow> location" where
  "url_location url =
     (let front = takeWhile (\<lambda>c. c \<noteq> 0x23) url;
          frag = dropWhile (\<lambda>c. c \<noteq> 0x23) url;
          p = takeWhile (\<lambda>c. c \<noteq> 0x3F) front;
          q = dropWhile (\<lambda>c. c \<noteq> 0x3F) front
      in \<lparr>pathname = p,
          search = (if q = [0x3F] then [] else q),
          hash = (if frag = [0x23] then [] else frag)\<rparr>)"

definition pushState :: "jsstring \<Rightarrow> router \<Rightarrow> router" where
  "pushState url w = w\<lparr>pushed := pushed w @ [url], location := url_location url\<rparr>"

definition setRoute :: "jsstring \<Rightarrow> router \<Rightarrow> router" where
  "setRoute r w = w\<lparr>route := r\<rparr>"

definition setLoading :: "bool \<Rightarrow> router \<Rightarrow> router" where
  "setLoading b w = w\<lparr>loading := b\<rparr>"

text \<open>\<^verbatim>\<open>setTimeout(() => setLoading(false), ms)\<close>: one more pending callback.\<close>

definition setTimeout_clear :: "nat \<Rightarrow> router \<Rightarrow> router" where
  "setTimeout_clear ms w = w\<lparr>timers := timers w @ [now w + ms]\<rparr>"

text \<open>
  Time passes until the clock reads \<open>t\<close>: every pending callback that is due by then
  runs (each one is \<^verbatim>\<open>setLoading(false)\<close>) and leaves the queue.
\<close>

definition elapse :: "nat \<Rightarrow> router \<Rightarrow> router" where
  "elapse t w =
     (let due = filter (\<lambda>d. d \<le> t) (timers w)
      in w\<lparr>now := max (now w) t,
           loading := (if due = [] then loading w else False),
           timers := filter (\<lambda>d. t < d) (timers w)\<rparr>)"

text \<open>
  \<^verbatim>\<open>
  const getCurrentPath = () => {
    if (typeof window === 'undefined') return "/";
    return parsePathFrom(window.location.pathname + window.location.search);
  };
  \<close>
  (in a browser: \<^verbatim>\<open>window\<close> is defined).
\<close>

definition getCurrentPath :: "router \<Rightarrow> jsstring" where
  "getCurrentPath w = parsePathFrom (Some (pathname (location w) @ search (location w)))"

text \<open>The first render of \<^verbatim>\<open>RouterProvider\<close> at location \<open>loc\<close> and time \<open>t\<close>.\<close>

definition RouterProvider :: "location \<Rightarrow> nat \<Rightarrow> router" where
  "RouterProvider loc t =
     (let w = \<lparr>location = loc, pushed = [], popstates = 0, route = [], loading = False,
                now = t, timers = []\<rparr>
      in w\<lparr>route := getCurrentPath w\<rparr>)"

text \<open>
  \<^verbatim>\<open>const onPop = () => setRoute(getCurrentPath());\<close> and the browser's back/forward
  signal that runs it: the location becomes \<open>loc\<close>, one \<^verbatim>\<open>popstate\<close> event is
  dispatched.
\<close>

definition onPop :: "router \<Rightarrow> router" where
  "onPop w = setRoute (getCurrentPath w) w"

definition popstate :: "location \<Rightarrow> router \<Rightarrow> router" where
  "popstate loc w = onPop (w\<lparr>location := loc, popstates := Suc (popstates w)\<rparr>)"

text \<open>
  \<^verbatim>\<open>
  const navigate = (to, options = {}) => {
    const path = parsePathFrom(to);
    const current = window.location.pathname + window.location.search;
    if (path !== current) {
      if (options.showLoader) setLoading(true);
      window.history.pushState({}, "", path);
      // Update state directly (do not dispatch popstate)
      setRoute(path);
      if (options.showLoader) {
        setTimeout(() => setLoading(false), 300); // Brief loading state for UX
      }
    }
  };
  \<close>
  \<open>showLoader\<close> is \<open>False\<close> for an absent option.
\<close>

record options =
  showLoader :: bool

definition navigate :: "jsstring \<Rightarrow> options \<Rightarrow> router \<Rightarrow> router" where
  "navigate to opts w =
     (let path = parsePathFrom (Some to);
          current = pathname (location w) @ search (location w)
      in if path \<noteq> current then
           (let w1 = (if showLoader opts then setLoading True w else w);
                w2 = pushState path w1;
                w3 = setRoute path w2
            in if showLoader opts then setTimeout_clear 300 w3 else w3)
         else w)"

section \<open>The view switch\<close>

text \<open>
  \<^verbatim>\<open>
  if (route.startsWith('/about')) return <About/>;
  if (route.startsWith('/brands')) return <Brands/>;
  if (route.startsWith('/media')) return <Media/>;
  if (route.startsWith('/contact')) return <Contact/>;
  if (route.startsWith('/privacy')) return <Privacy/>;
  if (route.startsWith('/terms')) return <Terms/>;
  return <Home/>;
  \<close>
\<close>

datatype view = Home | About | Brands | Media | Contact | Privacy | Terms

definition AppRouterSwitch :: "jsstring \<Rightarrow> view" where
  "AppRouterSwitch r =
     (if startsWith r (js ''/about'') then About
      else if startsWith r (js ''/brands'') then Brands
      else if startsWith r (js ''/media'') then Media
      else if startsWith r (js ''/contact'') then Contact
      else if startsWith r (js ''/privacy'') then Privacy
      else if startsWith r (js ''/terms'') then Terms
      else Home)"

text \<open>
  The resolver in the specification's words: an ordered list of (prefix, view) pairs, the
  view of the first pair whose prefix the route starts with, Home when there is none.
\<close>

definition view_table :: "(jsstring \<times> view) list" where
  "view_table =
     [(js ''/about'', About), (js ''/brands'', Brands), (js ''/media'', Media),
      (js ''/contact'', Contact), (js ''/privacy'', Privacy), (js ''/terms'', Terms)]"

definition first_match :: "(jsstring \<times> view) list \<Rightarrow> jsstring \<Rightarrow> view" where
  "first_match table r =
     (case find (\<lambda>pv. startsWith r (fst pv)) table of
        None \<Rightarrow> Home
      | Some pv \<Rightarrow> snd pv)"

section \<open>The theme\<close>

text \<open>
  \<^verbatim>\<open>
  const [theme, setTheme] = useState('dark');
  const toggleTheme = () => {
    const newTheme = theme === 'dark' ? 'light' : 'dark';
    setTheme(newTheme);
    document.documentElement.setAttribute('data-theme', newTheme);
    localStorage.setItem('theme', newTheme);
  };
  useEffect(() => {
    const savedTheme = localStorage.getItem('theme') || 'dark';
    setTheme(savedTheme);
    document.documentElement.setAttribute('data-theme', savedTheme);
  }, []);
  \<close>
  The state: the React cell \<open>theme\<close>, the document's \<^verbatim>\<open>data-theme\<close> attribute and
  the key-value store \<^verbatim>\<open>localStorage\<close> (\<^verbatim>\<open>getItem\<close> of an absent key is
  \<^verbatim>\<open>null\<close>, here \<open>None\<close>).
\<close>

record theme_state =
  theme :: jsstring
  data_theme :: "jsstring option"
  localStorage :: "jsstring \<rightharpoonup> jsstring"

text \<open>The first render, over the attribute and the storage found in the browser.\<close>

definition ThemeProvider :: "jsstring option \<Rightarrow> (jsstring \<rightharpoonup> jsstring) \<Rightarrow> theme_state" where
  "ThemeProvider attr store = \<lparr>theme = js ''dark'', data_theme = attr, localStorage = store\<rparr>"

text \<open>The mount effect.\<close>

definition ThemeProvider_effect :: "theme_state \<Rightarrow> theme_state" where
  "ThemeProvider_effect w =
     (let savedTheme = or_default (localStorage w (js ''theme'')) (js ''dark'')
      in w\<lparr>theme := savedTheme, data_theme := Some savedTheme\<rparr>)"

definition toggleTheme :: "theme_state \<Rightarrow> theme_state" where
  "toggleTheme w =
     (let newTheme = (if theme w = js ''dark'' then js ''light'' else js ''dark'')
      in w\<lparr>theme := newTheme,
           data_theme := Some newTheme,
           localStorage := (localStorage w)(js ''theme'' \<mapsto> newTheme)\<rparr>)"

section \<open>The contact form\<close>

text \<open>
  The pattern \<^verbatim>\<open>/\S+@\S+\.\S+/\<close> is a sequence of items, each one atom or one atom
  under \<^verbatim>\<open>+\<close>. \<open>matches_at\<close> is a backtracking matcher anchored at the start of its
  input (the longer repetition is tried first); \<^verbatim>\<open>RegExp.prototype.test\<close> of a
  pattern without flags tries every start position in turn.
\<close>

datatype atom = NonSpace | Lit jschar

datatype item = One atom | Plus atom

fun atom_ok :: "atom \<Rightarrow> jschar \<Rightarrow> bool" where
  "atom_ok NonSpace c = (\<not> isWhiteSpace c)"
| "atom_ok (Lit d) c = (c = d)"

fun matches_at :: "item list \<Rightarrow> jsstring \<Rightarrow> bool" where
  "matches_at [] s = True"
| "matches_at (One a # r) [] = False"
| "matches_at (One a # r) (c # cs) = (atom_ok a c \<and> matches_at r cs)"
| "matches_at (Plus a # r) [] = False"
| "matches_at (Plus a # r) (c # cs) =
     (atom_ok a c \<and> (matches_at (Plus a # r) cs \<or> matches_at r cs))"

fun regex_test :: "item list \<Rightarrow> jsstring \<Rightarrow> bool" where
  "regex_test r [] = matches_at r []"
| "regex_test r (c # cs) = (matches_at r (c # cs) \<or> regex_test r cs)"

definition email_re :: "item list" where
  "email_re = [Plus NonSpace, One (Lit 0x40), Plus NonSpace, One (Lit 0x2E), Plus NonSpace]"

text \<open>
  The state of \<^verbatim>\<open>Contact\<close>: \<^verbatim>\<open>status\<close> ('idle', 'submitting', 'success',
  'error'), \<^verbatim>\<open>error\<close>, \<^verbatim>\<open>form\<close>, \<^verbatim>\<open>formErrors\<close> (an object keyed by field
  name, in insertion order), and the bodies of the POST requests made to
  \<^verbatim>\<open>${API_BASE}/api/contact\<close> so far.
\<close>

record form =
  name :: jsstring
  email :: jsstring
  message :: jsstring

datatype status = Idle | Submitting | Success | Error

datatype field = Name | Email | Message

record contact =
  status :: status
  error :: jsstring
  form :: form
  formErrors :: "(field \<times> jsstring) list"
  requests :: "form list"

text \<open>
  The state after the first render (\<^verbatim>\<open>useState('idle')\<close>, \<^verbatim>\<open>useState('')\<close>,
  \<^verbatim>\<open>useState({ name:'', email:'', message:'' })\<close>, \<^verbatim>\<open>useState({})\<close>), and the
  state update behind the inputs' \<^verbatim>\<open>onChange\<close> handlers.
\<close>

definition Contact_initial :: contact where
  "Contact_initial =
     \<lparr>status = Idle, error = [], form = \<lparr>name = [], email = [], message = []\<rparr>,
      formErrors = [], requests = []\<rparr>"

definition setForm :: "form \<Rightarrow> contact \<Rightarrow> contact" where
  "setForm f s = s\<lparr>form := f\<rparr>"

text \<open>
  \<^verbatim>\<open>
  const validateForm = () => {
    const errors = {};
    if (!form.name.trim()) errors.name = 'Name is required';
    if (!form.email.trim()) errors.email = 'Email is required';
    else if (!/\S+@\S+\.\S+/.test(form.email)) errors.email = 'Email is invalid';
    if (!form.message.trim()) errors.message = 'Message is required';
    setFormErrors(errors);
    return Object.keys(errors).length === 0;
  };
  \<close>
\<close>

definition validateForm :: "contact \<Rightarrow> bool \<times> contact" where
  "validateForm s =
     (let errors0 = [];
          errors1 = (if trim (name (form s)) = []
                     then AList.update Name (js ''Name is required'') errors0 else errors0);
          errors2 = (if trim (email (form s)) = []
                     then AList.update Email (js ''Email is required'') errors1
                     else if \<not> regex_test email_re (email (form s))
                     then AList.update Email (js ''Email is invalid'') errors1 else errors1);
          errors3 = (if trim (message (form s)) = []
                     then AList.update Message (js ''Message is required'') errors2 else errors2)
      in (length (map fst errors3) = 0, s\<lparr>formErrors := errors3\<rparr>))"

text \<open>
  What the awaited \<^verbatim>\<open>fetch\<close> settles to: a response with its HTTP status, or a
  rejection (a transport failure). \<^verbatim>\<open>res.ok\<close> is true for a status 200..299.
\<close>

datatype fetch_result = Response nat | Rejected

definition ok :: "nat \<Rightarrow> bool" where
  "ok st = (200 \<le> st \<and> st \<le> 299)"

definition submit_failure :: jsstring where
  "submit_failure = js ''Could not submit to backend. Check API_BASE and /api/contact endpoint.''"

text \<open>
  \<^verbatim>\<open>
  async function onSubmit(e){
    e.preventDefault();
    if (!validateForm()) return;
    setStatus('submitting');
    setError('');
    try{
      const res = await fetch(`${API_BASE}/api/contact`, {
        method: 'POST',
        headers: { 'Content-Type': 'application/json' },
        body: JSON.stringify(form)
      });
      if(!res.ok) throw new Error(`HTTP ${res.status}`);
      setStatus('success');
      setForm({ name: '', email: '', message: '' }); // Clear form on success
    } catch(err){
      setError('Could not submit to backend. Check API_BASE and /api/contact endpoint.');
      setStatus('error');
    }
  }
  \<close>
  The handler is run to completion against the result \<open>res\<close> of its one request.
\<close>

definition onSubmit :: "fetch_result \<Rightarrow> contact \<Rightarrow> contact" where
  "onSubmit res s =
     (let (valid, s1) = validateForm s
      in if \<not> valid then s1
         else
           (let s2 = s1\<lparr>status := Submitting, error := []\<rparr>;
                s3 = s2\<lparr>requests := requests s2 @ [form s2]\<rparr>;
                failed = s3\<lparr>error := submit_failure, status := Error\<rparr>
            in case res of
                 Response st \<Rightarrow>
                   if \<not> ok st then failed
                   else s3\<lparr>status := Success, form := \<lparr>name = [], email = [], message = []\<rparr>\<rparr>
               | Rejected \<Rightarrow> failed))"

section \<open>Properties of strings\<close>

lemma js_slash: "js ''/'' = [0x2F]"
  by (simp add: js_def)

lemma slash_not_space: "\<not> isWhiteSpace 0x2F"
  by (simp add: isWhiteSpace_def)

lemma dropWhile_keeps: "xs \<noteq> [] \<Longrightarrow> \<not> P (hd xs) \<Longrightarrow> dropWhile P xs = xs"
  by (cases xs) auto

lemma trim_fixed:
  assumes "s \<noteq> []" and "\<not> isWhiteSpace (hd s)" and "\<not> isWhiteSpace (last s)"
  shows "trim s = s"
proof -
  have front: "dropWhile isWhiteSpace s = s"
    using assms(1,2) by (rule dropWhile_keeps)
  have "rev s \<noteq> []" and "\<not> isWhiteSpace (hd (rev s))"
    using assms(1,3) by (simp_all add: hd_rev)
  then have "dropWhile isWhiteSpace (rev s) = rev s"
    by (rule dropWhile_keeps)
  with front show ?thesis
    by (simp add: trim_def)
qed

lemma trim_ends:
  assumes "trim s \<noteq> []"
  shows "\<not> isWhiteSpace (hd (trim s)) \<and> \<not> isWhiteSpace (last (trim s))"
proof -
  define t where "t = dropWhile isWhiteSpace s"
  define u where "u = dropWhile isWhiteSpace (rev t)"
  have tr: "trim s = rev u"
    by (simp add: trim_def t_def u_def)
  with assms have u: "u \<noteq> []"
    by simp
  then have "\<not> isWhiteSpace (hd u)"
    unfolding u_def by (rule hd_dropWhile)
  then have tail: "\<not> isWhiteSpace (last (rev u))"
    using u by (simp add: last_rev)
  have "rev t = takeWhile isWhiteSpace (rev t) @ u"
    by (simp add: u_def)
  then have "rev (rev t) = rev (takeWhile isWhiteSpace (rev t) @ u)"
    by simp
  then have split: "t = rev u @ rev (takeWhile isWhiteSpace (rev t))"
    by simp
  with u have "t \<noteq> []"
    by auto
  then have "\<not> isWhiteSpace (hd t)"
    unfolding t_def by (rule hd_dropWhile)
  moreover from split u have "hd t = hd (rev u)"
    by (metis hd_append2 rev_is_Nil_conv)
  ultimately show ?thesis
    using tail tr by simp
qed

lemma trim_trim: "trim (trim s) = trim s"
proof (cases "trim s = []")
  case True
  moreover have "trim [] = []"
    by (simp add: trim_def)
  ultimately show ?thesis by simp
next
  case False
  with trim_ends [OF False] show ?thesis
    by (simp add: trim_fixed)
qed

lemma trim_empty_iff: "trim s = [] \<longleftrightarrow> list_all isWhiteSpace s"
proof
  assume "trim s = []"
  then have "dropWhile isWhiteSpace (rev (dropWhile isWhiteSpace s)) = []"
    by (simp add: trim_def)
  then have "\<forall>x \<in> set (rev (dropWhile isWhiteSpace s)). isWhiteSpace x"
    by (simp add: dropWhile_eq_Nil_conv)
  then have "dropWhile isWhiteSpace s = []"
    by (metis hd_dropWhile hd_in_set set_rev)
  then show "list_all isWhiteSpace s"
    by (simp add: dropWhile_eq_Nil_conv list_all_iff)
next
  assume "list_all isWhiteSpace s"
  then have d: "dropWhile isWhiteSpace s = []"
    by (simp add: list_all_iff)
  show "trim s = []"
    unfolding trim_def d by simp
qed

subsection \<open>Shape of a normalized path\<close>

lemma parsePathFrom_nonempty: "parsePathFrom x \<noteq> []"
  by (auto simp: parsePathFrom_def Let_def startsWith_def js_slash)

lemma parsePathFrom_hd: "hd (parsePathFrom x) = 0x2F"
  by (cases "trim (or_default x [0x2F])")
     (auto simp: parsePathFrom_def Let_def startsWith_def js_slash)

lemma parsePathFrom_last: "\<not> isWhiteSpace (last (parsePathFrom x))"
proof (cases "trim (or_default x [0x2F]) = []")
  case True
  then show ?thesis
    by (simp add: parsePathFrom_def Let_def startsWith_def js_slash slash_not_space)
next
  case False
  with trim_ends [OF False] show ?thesis
    by (simp add: parsePathFrom_def Let_def js_slash)
qed

lemma parsePathFrom_fixed: "parsePathFrom (Some (parsePathFrom x)) = parsePathFrom x"
proof -
  let ?r = "parsePathFrom x"
  have ne: "?r \<noteq> []"
    by (rule parsePathFrom_nonempty)
  have "trim ?r = ?r"
    using ne by (rule trim_fixed) (simp_all add: parsePathFrom_hd parsePathFrom_last slash_not_space)
  moreover have "startsWith ?r (js ''/'')"
    using ne parsePathFrom_hd [of x] by (cases ?r) (simp_all add: startsWith_def js_slash)
  ultimately show ?thesis
    using ne by (simp add: parsePathFrom_def [of "Some ?r"] or_default_def)
qed

lemma parsePathFrom_Some:
  "parsePathFrom (Some s) = (if startsWith (trim s) (js ''/'') then trim s else js ''/'' @ trim s)"
proof (cases "s = []")
  case True
  then show ?thesis
    by (simp add: parsePathFrom_def or_default_def js_slash startsWith_def trim_def slash_not_space)
next
  case False
  then show ?thesis
    by (simp add: parsePathFrom_def or_default_def)
qed

lemma parsePathFrom_startsWith: "startsWith (parsePathFrom x) (js ''/'')"
  using parsePathFrom_nonempty [of x] parsePathFrom_hd [of x]
  by (cases "parsePathFrom x") (simp_all add: startsWith_def js_slash)

text \<open>
  For a location whose path starts with \<^verbatim>\<open>/\<close> and has no whitespace at its end (every
  location of an http page), \<open>getCurrentPath\<close> is the string that \<open>navigate\<close> compares
  with.
\<close>

lemma getCurrentPath_raw:
  assumes "startsWith (pathname (location w)) (js ''/'')"
    and "\<not> isWhiteSpace (last (pathname (location w) @ search (location w)))"
  shows "getCurrentPath w = pathname (location w) @ search (location w)"
proof -
  let ?c = "pathname (location w) @ search (location w)"
  from assms(1) obtain rest where p: "pathname (location w) = 0x2F # rest"
    by (cases "pathname (location w)") (simp_all add: startsWith_def js_slash)
  then have ne: "?c \<noteq> []" and h: "hd ?c = 0x2F"
    by simp_all
  from ne have "trim ?c = ?c"
    using h assms(2) by (intro trim_fixed) (simp_all add: slash_not_space)
  moreover have "startsWith ?c (js ''/'')"
    using p by (simp add: startsWith_def js_slash)
  ultimately show ?thesis
    by (simp add: getCurrentPath_def parsePathFrom_Some)
qed

subsection \<open>Concrete paths\<close>

lemma parsePathFrom_literals:
  "parsePathFrom None = js ''/''"
  "parsePathFrom (Some (js '''')) = js ''/''"
  "parsePathFrom (Some (js ''/'')) = js ''/''"
  "parsePathFrom (Some (js ''about'')) = js ''/about''"
  "parsePathFrom (Some (js ''/about'')) = js ''/about''"
  "parsePathFrom (Some (js ''/media'')) = js ''/media''"
  "parsePathFrom (Some (js ''/terms?x=1'')) = js ''/terms?x=1''"
  by (simp_all add: parsePathFrom_def or_default_def js_def startsWith_def trim_def
      isWhiteSpace_def)

lemma url_location_literals:
  "url_location (js ''/about'') = \<lparr>pathname = js ''/about'', search = [], hash = []\<rparr>"
  "url_location (js ''/media'') = \<lparr>pathname = js ''/media'', search = [], hash = []\<rparr>"
  by (simp_all add: url_location_def js_def)

lemma paths_differ: "js ''/about'' \<noteq> js ''/''" "js ''/media'' \<noteq> js ''/about''"
  by (simp_all add: js_def)

lemma RouterProvider_root:
  "RouterProvider \<lparr>pathname = js ''/'', search = [], hash = []\<rparr> 0 =
     \<lparr>location = \<lparr>pathname = js ''/'', search = [], hash = []\<rparr>, pushed = [],
      popstates = 0, route = js ''/'', loading = False, now = 0, timers = []\<rparr>"
  by (simp add: RouterProvider_def getCurrentPath_def parsePathFrom_literals)

lemma theme_literals:
  "js ''dark'' \<noteq> js ''light''" "js ''light'' \<noteq> js ''dark''"
  "js ''dark'' \<noteq> []" "js ''light'' \<noteq> []"
  by (simp_all add: js_def)

section \<open>Properties of the pattern matcher\<close>

text \<open>A non-empty run of characters of the class is consumed by a \<open>Plus\<close> item.\<close>

lemma matches_Plus_run:
  "a \<noteq> [] \<Longrightarrow> list_all (atom_ok t) a \<Longrightarrow> matches_at r rest \<Longrightarrow>
     matches_at (Plus t # r) (a @ rest)"
proof (induction a)
  case Nil
  then show ?case by simp
next
  case (Cons x a)
  then show ?case
    by (cases "a = []") simp_all
qed

lemma regex_test_here: "matches_at r s \<Longrightarrow> regex_test r s"
  by (cases s) simp_all

lemma regex_test_skip: "regex_test r s \<Longrightarrow> regex_test r (pre @ s)"
  by (induction pre) simp_all

lemma email_shaped:
  assumes "a \<noteq> []" "b \<noteq> []" "c \<noteq> []"
    and "list_all (\<lambda>x. \<not> isWhiteSpace x) (a @ b @ c)"
  shows "regex_test email_re (pre @ a @ [0x40] @ b @ [0x2E] @ c @ post)"
proof -
  have ns: "list_all (atom_ok NonSpace) a" "list_all (atom_ok NonSpace) b"
    "list_all (atom_ok NonSpace) c"
    using assms(4) by (simp_all add: list_all_iff)
  have "matches_at [Plus NonSpace] (c @ post)"
    using assms(3) ns(3) by (rule matches_Plus_run) simp
  then have "matches_at [One (Lit 0x2E), Plus NonSpace] (0x2E # c @ post)"
    by simp
  with assms(2) ns(2)
  have "matches_at [Plus NonSpace, One (Lit 0x2E), Plus NonSpace] (b @ 0x2E # c @ post)"
    by (rule matches_Plus_run)
  then have "matches_at [One (Lit 0x40), Plus NonSpace, One (Lit 0x2E), Plus NonSpace]
      (0x40 # b @ 0x2E # c @ post)"
    by simp
  with assms(1) ns(1) have "matches_at email_re (a @ 0x40 # b @ 0x2E # c @ post)"
    unfolding email_re_def by (rule matches_Plus_run)
  then have "regex_test email_re (a @ 0x40 # b @ 0x2E # c @ post)"
    by (rule regex_test_here)
  then have "regex_test email_re (pre @ a @ 0x40 # b @ 0x2E # c @ post)"
    by (rule regex_test_skip)
  then show ?thesis by simp
qed

text \<open>Conversely, a match has that shape: the pattern accepts exactly such strings.\<close>

lemma matches_Plus_run_elim:
  "matches_at (Plus t # r) s \<Longrightarrow>
     \<exists>a rest. s = a @ rest \<and> a \<noteq> [] \<and> list_all (atom_ok t) a \<and> matches_at r rest"
proof (induction s)
  case Nil
  then show ?case by simp
next
  case (Cons x s)
  then have x: "atom_ok t x" and alt: "matches_at (Plus t # r) s \<or> matches_at r s"
    by simp_all
  from alt show ?case
  proof
    assume "matches_at (Plus t # r) s"
    with Cons.IH obtain a rest where
      "s = a @ rest" "a \<noteq> []" "list_all (atom_ok t) a" "matches_at r rest"
      by blast
    with x have "x # s = (x # a) @ rest \<and> x # a \<noteq> [] \<and> list_all (atom_ok t) (x # a)
        \<and> matches_at r rest"
      by simp
    then show ?thesis by blast
  next
    assume "matches_at r s"
    with x have "x # s = [x] @ s \<and> [x] \<noteq> [] \<and> list_all (atom_ok t) [x] \<and> matches_at r s"
      by simp
    then show ?thesis by blast
  qed
qed

lemma matches_One_elim:
  "matches_at (One (Lit d) # r) s \<Longrightarrow> \<exists>rest. s = d # rest \<and> matches_at r rest"
  by (cases s) simp_all

lemma regex_test_elim: "regex_test r s \<Longrightarrow> \<exists>pre m. s = pre @ m \<and> matches_at r m"
proof (induction s)
  case Nil
  then show ?case by simp
next
  case (Cons x s)
  then have "matches_at r (x # s) \<or> regex_test r s"
    by simp
  then show ?case
  proof
    assume "matches_at r (x # s)"
    then have "x # s = [] @ (x # s) \<and> matches_at r (x # s)"
      by simp
    then show ?thesis by blast
  next
    assume "regex_test r s"
    with Cons.IH obtain pre m where "s = pre @ m" "matches_at r m"
      by blast
    then have "x # s = (x # pre) @ m \<and> matches_at r m"
      by simp
    then show ?thesis by blast
  qed
qed

lemma email_re_elim:
  assumes "regex_test email_re s"
  shows "\<exists>pre a b c post. s = pre @ a @ [0x40] @ b @ [0x2E] @ c @ post
           \<and> a \<noteq> [] \<and> b \<noteq> [] \<and> c \<noteq> [] \<and> list_all (\<lambda>x. \<not> isWhiteSpace x) (a @ b @ c)"
proof -
  from assms obtain pre m where s: "s = pre @ m" and m: "matches_at email_re m"
    by (blast dest: regex_test_elim)
  from m obtain a m1 where a: "m = a @ m1" "a \<noteq> []" "list_all (atom_ok NonSpace) a"
    and m1: "matches_at [One (Lit 0x40), Plus NonSpace, One (Lit 0x2E), Plus NonSpace] m1"
    unfolding email_re_def by (blast dest: matches_Plus_run_elim)
  from m1 obtain m2 where m2: "m1 = 0x40 # m2"
    "matches_at [Plus NonSpace, One (Lit 0x2E), Plus NonSpace] m2"
    by (blast dest: matches_One_elim)
  from m2(2) obtain b m3 where b: "m2 = b @ m3" "b \<noteq> []" "list_all (atom_ok NonSpace) b"
    and m3: "matches_at [One (Lit 0x2E), Plus NonSpace] m3"
    by (blast dest: matches_Plus_run_elim)
  from m3 obtain m4 where m4: "m3 = 0x2E # m4" "matches_at [Plus NonSpace] m4"
    by (blast dest: matches_One_elim)
  from m4(2) obtain c post where c: "m4 = c @ post" "c \<noteq> []" "list_all (atom_ok NonSpace) c"
    by (blast dest: matches_Plus_run_elim)
  have "s = pre @ a @ [0x40] @ b @ [0x2E] @ c @ post"
    using s a(1) m2(1) b(1) m4(1) c(1) by simp
  moreover have "list_all (\<lambda>x. \<not> isWhiteSpace x) (a @ b @ c)"
    using a(3) b(3) c(3) by (auto simp: list_all_iff)
  ultimately show ?thesis
    using a(2) b(2) c(2) by blast
qed

lemma email_re_iff:
  "regex_test email_re s \<longleftrightarrow>
     (\<exists>pre a b c post. s = pre @ a @ [0x40] @ b @ [0x2E] @ c @ post
        \<and> a \<noteq> [] \<and> b \<noteq> [] \<and> c \<noteq> [] \<and> list_all (\<lambda>x. \<not> isWhiteSpace x) (a @ b @ c))"
  using email_re_elim [of s] email_shaped by blast

text \<open>A string of whitespace only has no match: the pattern starts with \<^verbatim>\<open>\S\<close>.\<close>

lemma blank_no_match: "list_all isWhiteSpace s \<Longrightarrow> \<not> regex_test (Plus NonSpace # r) s"
  by (induction s) simp_all

lemma blank_not_email: "trim s = [] \<Longrightarrow> \<not> regex_test email_re s"
  by (simp add: trim_empty_iff email_re_def blank_no_match)

lemma simple_email: "regex_test email_re (js ''a@b.c'')"
proof -
  have "regex_test email_re ([] @ js ''a'' @ [0x40] @ js ''b'' @ [0x2E] @ js ''c'' @ [])"
    by (rule email_shaped) (simp_all add: js_def isWhiteSpace_def)
  then show ?thesis
    by (simp add: js_def)
qed

section \<open>Properties of the contact form\<close>

lemma trim_Nil: "trim [] = []"
  by (simp add: trim_def)

lemma trim_literals:
  "trim (js ''Ann'') \<noteq> []" "trim (js ''hi'') \<noteq> []" "trim (js '' '') = []"
  by (simp_all add: trim_def js_def isWhiteSpace_def)

lemma messages_nonempty:
  "js ''Name is required'' \<noteq> []" "js ''Email is required'' \<noteq> []"
  "js ''Email is invalid'' \<noteq> []" "js ''Message is required'' \<noteq> []"
  by (simp_all add: js_def)

text \<open>\<open>validateForm\<close> writes \<open>formErrors\<close> and nothing else.\<close>

lemma validateForm_snd:
  "snd (validateForm s) = s\<lparr>formErrors := formErrors (snd (validateForm s))\<rparr>"
  by (simp add: validateForm_def Let_def)

lemma validateForm_frame:
  "status (snd (validateForm s)) = status s" "error (snd (validateForm s)) = error s"
  "form (snd (validateForm s)) = form s" "requests (snd (validateForm s)) = requests s"
  by (simp_all add: validateForm_def Let_def)

lemma validateForm_valid_iff:
  "fst (validateForm s) \<longleftrightarrow>
     trim (name (form s)) \<noteq> [] \<and> trim (message (form s)) \<noteq> []
     \<and> regex_test email_re (email (form s))"
  using blank_not_email [of "email (form s)"]
  by (auto simp: validateForm_def Let_def)

lemma validateForm_Name:
  "map_of (formErrors (snd (validateForm s))) Name =
     (if trim (name (form s)) = [] then Some (js ''Name is required'') else None)"
  by (simp add: validateForm_def Let_def)

lemma validateForm_Email:
  "map_of (formErrors (snd (validateForm s))) Email =
     (if trim (email (form s)) = [] then Some (js ''Email is required'')
      else if \<not> regex_test email_re (email (form s)) then Some (js ''Email is invalid'')
      else None)"
  by (simp add: validateForm_def Let_def)

lemma validateForm_Message:
  "map_of (formErrors (snd (validateForm s))) Message =
     (if trim (message (form s)) = [] then Some (js ''Message is required'') else None)"
  by (simp add: validateForm_def Let_def)

lemma onSubmit_invalid: "\<not> fst (validateForm s) \<Longrightarrow> onSubmit res s = snd (validateForm s)"
  by (simp add: onSubmit_def case_prod_beta)

lemma onSubmit_valid:
  "fst (validateForm s) \<Longrightarrow>
     onSubmit res s =
       (let s3 = (snd (validateForm s))\<lparr>status := Submitting, error := [],
                   requests := requests s @ [form s]\<rparr>
        in case res of
             Response st \<Rightarrow>
               if \<not> ok st then s3\<lparr>error := submit_failure, status := Error\<rparr>
               else s3\<lparr>status := Success, form := \<lparr>name = [], email = [], message = []\<rparr>\<rparr>
           | Rejected \<Rightarrow> s3\<lparr>error := submit_failure, status := Error\<rparr>)"
  by (cases res) (simp_all add: onSubmit_def case_prod_beta Let_def validateForm_frame)

section \<open>Claims\<close>

subsection \<open>Navigation\<close>

text \<open>
  C1. A call \<open>navigate(target, options)\<close> whose normalized target equals the path of
  the browser location (\<^verbatim>\<open>window.location.pathname + window.location.search\<close>, as
  \<open>navigate\<close> reads it) changes nothing: the whole state is the one before the call, so no
  history entry is pushed, the current route is unchanged, and \<open>loading\<close> and the
  pending timers are unchanged whatever \<open>showLoader\<close> is. (By \<open>getCurrentPath_raw\<close>
  that path is also what \<open>getCurrentPath\<close> returns, for a location whose path starts
  with \<^verbatim>\<open>/\<close>.)
\<close>

theorem navigate_same_noop:
  assumes "parsePathFrom (Some to) = pathname (location w) @ search (location w)"
  shows "navigate to opts w = w
         \<and> pushed (navigate to opts w) = pushed w
         \<and> route (navigate to opts w) = route w
         \<and> loading (navigate to opts w) = loading w
         \<and> timers (navigate to opts w) = timers w"
  using assms by (simp add: navigate_def)

theorem navigate_same_noop_witness:
  "parsePathFrom (Some (js ''about'')) = js ''/about'' @ []
   \<and> navigate (js ''about'') \<lparr>showLoader = True\<rparr>
        (RouterProvider \<lparr>pathname = js ''/about'', search = [], hash = []\<rparr> 0)
       = RouterProvider \<lparr>pathname = js ''/about'', search = [], hash = []\<rparr> 0"
proof -
  let ?w = "RouterProvider \<lparr>pathname = js ''/about'', search = [], hash = []\<rparr> 0"
  have "parsePathFrom (Some (js ''about'')) = pathname (location ?w) @ search (location ?w)"
    by (simp add: RouterProvider_def parsePathFrom_literals)
  from navigate_same_noop [OF this] show ?thesis
    by (simp add: parsePathFrom_literals)
qed

text \<open>
  C9. There is a run of two \<open>navigate\<close> calls with \<open>showLoader\<close> in which the first
  call's delayed clear turns \<open>loading\<close> off during the second call's loading period.
  From location \<^verbatim>\<open>/\<close> at time 0, navigate to \<^verbatim>\<open>/about\<close> (its clear is due at 300),
  then at time 200 to \<^verbatim>\<open>/media\<close> (its clear is due at 500; both are pending, the first
  one is not cancelled). At time 300 the first clear has run: \<open>loading\<close> is false while
  the second clear is still pending.
\<close>

theorem loader_cleared_early:
  "(let w0 = RouterProvider \<lparr>pathname = js ''/'', search = [], hash = []\<rparr> 0;
        w1 = navigate (js ''/about'') \<lparr>showLoader = True\<rparr> w0;
        w2 = navigate (js ''/media'') \<lparr>showLoader = True\<rparr> (elapse 200 w1);
        w3 = elapse 300 w2
    in loading w1 \<and> timers w1 = [300]
       \<and> loading w2 \<and> timers w2 = [300, 500]
       \<and> now w3 = 300 \<and> \<not> loading w3 \<and> timers w3 = [500])"
proof -
  let ?w0 = "RouterProvider \<lparr>pathname = js ''/'', search = [], hash = []\<rparr> 0"
  have w1: "navigate (js ''/about'') \<lparr>showLoader = True\<rparr> ?w0 =
      \<lparr>location = \<lparr>pathname = js ''/about'', search = [], hash = []\<rparr>, pushed = [js ''/about''],
       popstates = 0, route = js ''/about'', loading = True, now = 0, timers = [300]\<rparr>"
    unfolding RouterProvider_root
    by (simp add: navigate_def parsePathFrom_literals paths_differ Let_def pushState_def
        setRoute_def setLoading_def setTimeout_clear_def url_location_literals)
  show ?thesis
    unfolding Let_def w1
    by (simp add: navigate_def parsePathFrom_literals paths_differ Let_def pushState_def
        setRoute_def setLoading_def setTimeout_clear_def url_location_literals elapse_def)
qed

subsection \<open>Path normalization\<close>

text \<open>
  C3. Path normalization is idempotent: normalizing the result of a normalization gives
  that result again, for every string \<open>s\<close> (and for an undefined argument as well).
\<close>

theorem parsePathFrom_idempotent:
  "parsePathFrom (Some (parsePathFrom (Some s))) = parsePathFrom (Some s)
   \<and> parsePathFrom (Some (parsePathFrom None)) = parsePathFrom None"
  by (simp add: parsePathFrom_fixed)

text \<open>
  C4. Path normalization has a result for every input. The input is trimmed of
  whitespace; the trimmed string is returned as it is when it starts with \<^verbatim>\<open>/\<close> (a
  query suffix included), and with \<^verbatim>\<open>/\<close> prepended otherwise; the empty string and
  an undefined argument give \<^verbatim>\<open>/\<close>. So \<^verbatim>\<open>''\<close> gives \<^verbatim>\<open>/\<close>, \<^verbatim>\<open>about\<close> gives
  \<^verbatim>\<open>/about\<close>, \<^verbatim>\<open>/terms?x=1\<close> gives \<^verbatim>\<open>/terms?x=1\<close>, and every result starts with
  \<^verbatim>\<open>/\<close> and is not empty.
\<close>

theorem parsePathFrom_shape:
  "parsePathFrom (Some s) = (if startsWith (trim s) (js ''/'') then trim s else js ''/'' @ trim s)
   \<and> parsePathFrom None = js ''/''
   \<and> parsePathFrom (Some (js '''')) = js ''/''
   \<and> parsePathFrom (Some (js ''about'')) = js ''/about''
   \<and> parsePathFrom (Some (js ''/terms?x=1'')) = js ''/terms?x=1''
   \<and> startsWith (parsePathFrom x) (js ''/'')
   \<and> parsePathFrom x \<noteq> []"
  using parsePathFrom_Some [of s] parsePathFrom_startsWith [of x] parsePathFrom_nonempty [of x]
  by (simp add: parsePathFrom_literals)

theorem parsePathFrom_shape_witness:
  "parsePathFrom (Some (js '' /media '')) = js ''/media''
   \<and> startsWith (parsePathFrom (Some (js ''brands''))) (js ''/'')"
  using parsePathFrom_shape [of "js '' /media ''" "Some (js ''brands'')"]
  by (simp add: js_def startsWith_def trim_def isWhiteSpace_def)

subsection \<open>View resolution\<close>

text \<open>
  C2. For every route the view switch returns the view of the first prefix that the route
  starts with, the prefixes taken in the order about, brands, media, contact, privacy,
  terms, and the Home view when the route starts with none of them. The route
  \<^verbatim>\<open>/brands/anything\<close> resolves to Brands and \<^verbatim>\<open>/unknown\<close> to Home. The switch reads
  nothing but the route (it is a function of the route), so resolving a route twice gives
  the same view.
\<close>

theorem AppRouterSwitch_first_match:
  "AppRouterSwitch r = first_match view_table r
   \<and> AppRouterSwitch (js ''/brands/anything'') = Brands
   \<and> AppRouterSwitch (js ''/unknown'') = Home"
proof -
  have "AppRouterSwitch r = first_match view_table r"
    by (simp add: AppRouterSwitch_def first_match_def view_table_def)
  moreover have "AppRouterSwitch (js ''/brands/anything'') = Brands"
    by (simp add: AppRouterSwitch_def js_def startsWith_def)
  moreover have "AppRouterSwitch (js ''/unknown'') = Home"
    by (simp add: AppRouterSwitch_def js_def startsWith_def)
  ultimately show ?thesis by simp
qed

subsection \<open>Theme\<close>

text \<open>
  C8. When the storage holds no theme, the theme of the first render and after the mount
  effect is \<^verbatim>\<open>dark\<close>; one toggle then gives \<^verbatim>\<open>light\<close>, stores the string
  \<^verbatim>\<open>light\<close> under the key \<^verbatim>\<open>theme\<close> and sets the document attribute to it, and a
  provider started over that storage comes up \<^verbatim>\<open>light\<close>. Every toggle gives
  \<^verbatim>\<open>light\<close> from \<^verbatim>\<open>dark\<close> and \<^verbatim>\<open>dark\<close> otherwise, so it changes the theme and its
  result is one of the two values; it stores the new value and mirrors it onto the
  document attribute.
\<close>

theorem theme_toggle:
  assumes "store (js ''theme'') = None"
  shows "theme (ThemeProvider attr store) = js ''dark''
         \<and> theme (ThemeProvider_effect (ThemeProvider attr store)) = js ''dark''
         \<and> theme (toggleTheme (ThemeProvider_effect (ThemeProvider attr store))) = js ''light''
         \<and> localStorage (toggleTheme (ThemeProvider_effect (ThemeProvider attr store))) (js ''theme'')
             = Some (js ''light'')
         \<and> data_theme (toggleTheme (ThemeProvider_effect (ThemeProvider attr store)))
             = Some (js ''light'')
         \<and> theme (ThemeProvider_effect (ThemeProvider attr'
               (localStorage (toggleTheme (ThemeProvider_effect (ThemeProvider attr store))))))
             = js ''light''
         \<and> theme (toggleTheme w) = (if theme w = js ''dark'' then js ''light'' else js ''dark'')
         \<and> theme (toggleTheme w) \<noteq> theme w
         \<and> localStorage (toggleTheme w) (js ''theme'') = Some (theme (toggleTheme w))
         \<and> data_theme (toggleTheme w) = Some (theme (toggleTheme w))"
  using assms
  by (simp add: ThemeProvider_def ThemeProvider_effect_def toggleTheme_def or_default_def
      Let_def theme_literals)

theorem theme_toggle_witness:
  "Map.empty (js ''theme'') = (None :: jsstring option)
   \<and> theme (toggleTheme (ThemeProvider_effect (ThemeProvider None Map.empty))) = js ''light''
   \<and> theme (toggleTheme (toggleTheme (ThemeProvider_effect (ThemeProvider None Map.empty))))
       = js ''dark''"
proof -
  have e: "Map.empty (js ''theme'') = (None :: jsstring option)"
    by simp
  from theme_toggle [OF e, of None None
      "toggleTheme (ThemeProvider_effect (ThemeProvider None Map.empty))"]
  show ?thesis
    by (simp add: theme_literals)
qed

subsection \<open>Contact form\<close>

text \<open>
  C6. For a submission that passes validation: when the POST returns a status 200..299
  the status becomes \<^verbatim>\<open>success\<close> and the three fields are cleared; when it returns any
  other status, or the request is rejected, the status becomes \<^verbatim>\<open>error\<close>, the error
  text is the one generic message, and the fields are as they were. One request is made,
  with the form as its body.
\<close>

theorem onSubmit_outcome:
  assumes "fst (validateForm s)"
  shows "(ok st \<longrightarrow>
            status (onSubmit (Response st) s) = Success
            \<and> form (onSubmit (Response st) s) = \<lparr>name = [], email = [], message = []\<rparr>)
         \<and> (\<not> ok st \<longrightarrow>
            status (onSubmit (Response st) s) = Error
            \<and> error (onSubmit (Response st) s) = submit_failure
            \<and> form (onSubmit (Response st) s) = form s)
         \<and> status (onSubmit Rejected s) = Error
         \<and> error (onSubmit Rejected s) = submit_failure
         \<and> form (onSubmit Rejected s) = form s
         \<and> requests (onSubmit res s) = requests s @ [form s]"
  by (cases res) (simp_all add: onSubmit_valid [OF assms] Let_def validateForm_frame)

theorem onSubmit_outcome_witness:
  "fst (validateForm
      (setForm \<lparr>name = js ''Ann'', email = js ''a@b.c'', message = js ''hi''\<rparr> Contact_initial))
   \<and> ok 200
   \<and> status (onSubmit (Response 200)
        (setForm \<lparr>name = js ''Ann'', email = js ''a@b.c'', message = js ''hi''\<rparr> Contact_initial))
       = Success
   \<and> form (onSubmit (Response 200)
        (setForm \<lparr>name = js ''Ann'', email = js ''a@b.c'', message = js ''hi''\<rparr> Contact_initial))
       = \<lparr>name = [], email = [], message = []\<rparr>
   \<and> \<not> ok 500
   \<and> status (onSubmit (Response 500)
        (setForm \<lparr>name = js ''Ann'', email = js ''a@b.c'', message = js ''hi''\<rparr> Contact_initial))
       = Error
   \<and> form (onSubmit (Response 500)
        (setForm \<lparr>name = js ''Ann'', email = js ''a@b.c'', message = js ''hi''\<rparr> Contact_initial))
       = \<lparr>name = js ''Ann'', email = js ''a@b.c'', message = js ''hi''\<rparr>"
proof -
  let ?s = "setForm \<lparr>name = js ''Ann'', email = js ''a@b.c'', message = js ''hi''\<rparr>
    Contact_initial"
  have v: "fst (validateForm ?s)"
    by (simp add: validateForm_valid_iff setForm_def Contact_initial_def trim_literals
        simple_email)
  have k: "ok 200" "\<not> ok 500"
    by (simp_all add: ok_def)
  have f: "form ?s = \<lparr>name = js ''Ann'', email = js ''a@b.c'', message = js ''hi''\<rparr>"
    by (simp add: setForm_def)
  from onSubmit_outcome [OF v, of 200] onSubmit_outcome [OF v, of 500] v k f show ?thesis
    by simp
qed

text \<open>
  C7, as stated, fails: it has a validation error raised exactly when a required field
  is empty or the email fails the pattern check. With the name \<^verbatim>\<open>' '\<close> (one space),
  the email \<^verbatim>\<open>a@b.c\<close> and the message \<^verbatim>\<open>hi\<close>, no field is empty and the email passes
  the pattern check, yet validation fails, with the one error \<^verbatim>\<open>Name is required\<close>:
  the fields are trimmed before they are tested.
\<close>

theorem validateForm_blank_name_counterexample:
  "\<not> fst (validateForm
      (setForm \<lparr>name = js '' '', email = js ''a@b.c'', message = js ''hi''\<rparr> Contact_initial))
   \<and> formErrors (snd (validateForm
      (setForm \<lparr>name = js '' '', email = js ''a@b.c'', message = js ''hi''\<rparr> Contact_initial)))
       = [(Name, js ''Name is required'')]
   \<and> name (form
      (setForm \<lparr>name = js '' '', email = js ''a@b.c'', message = js ''hi''\<rparr> Contact_initial))
       \<noteq> []
   \<and> email (form
      (setForm \<lparr>name = js '' '', email = js ''a@b.c'', message = js ''hi''\<rparr> Contact_initial))
       \<noteq> []
   \<and> message (form
      (setForm \<lparr>name = js '' '', email = js ''a@b.c'', message = js ''hi''\<rparr> Contact_initial))
       \<noteq> []
   \<and> regex_test email_re (email (form
      (setForm \<lparr>name = js '' '', email = js ''a@b.c'', message = js ''hi''\<rparr> Contact_initial)))"
proof -
  let ?s = "setForm \<lparr>name = js '' '', email = js ''a@b.c'', message = js ''hi''\<rparr>
    Contact_initial"
  have ne: "js '' '' \<noteq> []" "js ''a@b.c'' \<noteq> []" "js ''hi'' \<noteq> []"
    by (simp_all add: js_def)
  have te: "trim (js ''a@b.c'') \<noteq> []"
    using blank_not_email simple_email by blast
  have "formErrors (snd (validateForm ?s)) = [(Name, js ''Name is required'')]"
    by (simp add: validateForm_def Let_def setForm_def trim_literals te simple_email)
  with ne show ?thesis
    by (simp add: validateForm_valid_iff setForm_def trim_literals simple_email)
qed

text \<open>
  C7, amended. Submitting with the three fields empty gives three field errors (name,
  email, message), makes no request and leaves the status as it was. Validation fails
  exactly when the name, the email or the message is empty or only whitespace, or the
  email fails the pattern check; the error of a field is raised exactly when that field
  is empty or only whitespace (name, message), or fails the pattern check (email, which
  an empty or blank email does). A failed validation writes the field errors and nothing
  else: the status does not change and no request is made.
\<close>

theorem validateForm_rejects:
  "(\<not> fst (validateForm s) \<longleftrightarrow>
       trim (name (form s)) = [] \<or> trim (email (form s)) = [] \<or> trim (message (form s)) = []
       \<or> \<not> regex_test email_re (email (form s)))
   \<and> (map_of (formErrors (snd (validateForm s))) Name \<noteq> None \<longleftrightarrow> trim (name (form s)) = [])
   \<and> (map_of (formErrors (snd (validateForm s))) Email \<noteq> None \<longleftrightarrow>
        trim (email (form s)) = [] \<or> \<not> regex_test email_re (email (form s)))
   \<and> (map_of (formErrors (snd (validateForm s))) Message \<noteq> None \<longleftrightarrow>
        trim (message (form s)) = [])
   \<and> (\<not> fst (validateForm s) \<longrightarrow>
        onSubmit res s = s\<lparr>formErrors := formErrors (snd (validateForm s))\<rparr>
        \<and> status (onSubmit res s) = status s
        \<and> requests (onSubmit res s) = requests s)
   \<and> (form s = \<lparr>name = [], email = [], message = []\<rparr> \<longrightarrow>
        formErrors (onSubmit res s) =
          [(Name, js ''Name is required''), (Email, js ''Email is required''),
           (Message, js ''Message is required'')]
        \<and> requests (onSubmit res s) = requests s
        \<and> status (onSubmit res s) = status s)"
proof -
  have a: "\<not> fst (validateForm s) \<longleftrightarrow>
       trim (name (form s)) = [] \<or> trim (email (form s)) = [] \<or> trim (message (form s)) = []
       \<or> \<not> regex_test email_re (email (form s))"
    using blank_not_email [of "email (form s)"] by (auto simp: validateForm_valid_iff)
  have b: "\<not> fst (validateForm s) \<Longrightarrow>
        onSubmit res s = s\<lparr>formErrors := formErrors (snd (validateForm s))\<rparr>
        \<and> status (onSubmit res s) = status s
        \<and> requests (onSubmit res s) = requests s"
  proof -
    assume "\<not> fst (validateForm s)"
    then have "onSubmit res s = snd (validateForm s)"
      by (rule onSubmit_invalid)
    moreover have "snd (validateForm s) = s\<lparr>formErrors := formErrors (snd (validateForm s))\<rparr>"
      by (rule validateForm_snd)
    ultimately show ?thesis
      by (simp add: validateForm_frame)
  qed
  have c: "formErrors (onSubmit res s) =
          [(Name, js ''Name is required''), (Email, js ''Email is required''),
           (Message, js ''Message is required'')]
        \<and> requests (onSubmit res s) = requests s
        \<and> status (onSubmit res s) = status s"
    if e: "form s = \<lparr>name = [], email = [], message = []\<rparr>"
  proof -
    have "\<not> fst (validateForm s)"
      by (simp add: validateForm_valid_iff e trim_Nil)
    moreover have "formErrors (snd (validateForm s)) =
          [(Name, js ''Name is required''), (Email, js ''Email is required''),
           (Message, js ''Message is required'')]"
      by (simp add: validateForm_def Let_def e trim_Nil)
    ultimately show ?thesis
      using b by simp
  qed
  show ?thesis
    using a b c
    by (simp add: validateForm_Name validateForm_Email validateForm_Message messages_nonempty)
qed

theorem validateForm_rejects_witness:
  "form Contact_initial = \<lparr>name = [], email = [], message = []\<rparr>
   \<and> \<not> fst (validateForm Contact_initial)
   \<and> formErrors (onSubmit (Response 200) Contact_initial) =
       [(Name, js ''Name is required''), (Email, js ''Email is required''),
        (Message, js ''Message is required'')]
   \<and> requests (onSubmit (Response 200) Contact_initial) = []
   \<and> status (onSubmit (Response 200) Contact_initial) = Idle"
proof -
  have f: "form Contact_initial = \<lparr>name = [], email = [], message = []\<rparr>"
    by (simp add: Contact_initial_def)
  have r: "requests Contact_initial = []" "status Contact_initial = Idle"
    by (simp_all add: Contact_initial_def)
  note th = validateForm_rejects [of Contact_initial "Response 200"]
  from th f have "formErrors (onSubmit (Response 200) Contact_initial) =
       [(Name, js ''Name is required''), (Email, js ''Email is required''),
        (Message, js ''Message is required'')]
      \<and> requests (onSubmit (Response 200) Contact_initial) = requests Contact_initial
      \<and> status (onSubmit (Response 200) Contact_initial) = status Contact_initial"
    by blast
  moreover from th have "(\<not> fst (validateForm Contact_initial)) =
      (trim (name (form Contact_initial)) = [] \<or> trim (email (form Contact_initial)) = []
       \<or> trim (message (form Contact_initial)) = []
       \<or> \<not> regex_test email_re (email (form Contact_initial)))"
    by blast
  then have "\<not> fst (validateForm Contact_initial)"
    by (simp add: f trim_Nil)
  ultimately show ?thesis
    using f r by simp
qed

text \<open>
  C10. The email pattern check is not anchored: an email value that contains, anywhere,
  a non-empty run of non-space characters, \<^verbatim>\<open>@\<close>, a non-empty run of non-space
  characters, \<^verbatim>\<open>.\<close> and a non-empty run of non-space characters passes it, whatever
  stands before and after, and gets no email error; when the name and the message are
  not blank either, the form is valid and is posted as it is. The value
  \<^verbatim>\<open>junk a@b.c junk\<close> is such a value.
\<close>

theorem email_pattern_unanchored:
  assumes "a \<noteq> []" "b \<noteq> []" "c \<noteq> []"
    and "list_all (\<lambda>x. \<not> isWhiteSpace x) (a @ b @ c)"
    and "email (form s) = pre @ a @ [0x40] @ b @ [0x2E] @ c @ post"
  shows "regex_test email_re (email (form s))
         \<and> map_of (formErrors (snd (validateForm s))) Email = None
         \<and> (trim (name (form s)) \<noteq> [] \<and> trim (message (form s)) \<noteq> [] \<longrightarrow>
              fst (validateForm s)
              \<and> requests (onSubmit res s) = requests s @ [form s])"
proof -
  have m: "regex_test email_re (email (form s))"
    unfolding assms(5) using assms(1-4) by (rule email_shaped)
  then have t: "trim (email (form s)) \<noteq> []"
    using blank_not_email by blast
  have "requests (onSubmit res s) = requests s @ [form s]" if "fst (validateForm s)"
    by (cases res) (simp_all add: onSubmit_valid [OF that] Let_def)
  with m t show ?thesis
    by (simp add: validateForm_Email validateForm_valid_iff)
qed

theorem email_pattern_unanchored_witness:
  "regex_test email_re (js ''junk a@b.c junk'')
   \<and> fst (validateForm
        (setForm \<lparr>name = js ''Ann'', email = js ''junk a@b.c junk'', message = js ''hi''\<rparr>
          Contact_initial))
   \<and> requests (onSubmit (Response 200)
        (setForm \<lparr>name = js ''Ann'', email = js ''junk a@b.c junk'', message = js ''hi''\<rparr>
          Contact_initial))
       = [\<lparr>name = js ''Ann'', email = js ''junk a@b.c junk'', message = js ''hi''\<rparr>]"
proof -
  let ?s = "setForm \<lparr>name = js ''Ann'', email = js ''junk a@b.c junk'', message = js ''hi''\<rparr>
    Contact_initial"
  have ne: "js ''a'' \<noteq> []" "js ''b'' \<noteq> []" "js ''c'' \<noteq> []"
    by (simp_all add: js_def)
  have ns: "list_all (\<lambda>x. \<not> isWhiteSpace x) (js ''a'' @ js ''b'' @ js ''c'')"
    by (simp add: js_def isWhiteSpace_def)
  have e: "email (form ?s) =
      js ''junk '' @ js ''a'' @ [0x40] @ js ''b'' @ [0x2E] @ js ''c'' @ js '' junk''"
    by (simp add: setForm_def js_def)
  have f: "form ?s = \<lparr>name = js ''Ann'', email = js ''junk a@b.c junk'', message = js ''hi''\<rparr>"
    "requests ?s = []"
    by (simp_all add: setForm_def Contact_initial_def)
  from email_pattern_unanchored [OF ne ns e, of "Response 200"] f show ?thesis
    by (simp add: trim_literals)
qed

end
